theory Spec2Isabelle
  imports Complex_Main "HOL-Library.Word"
begin

section \<open>The OpenColorIO binding layer of \<^verbatim>\<open>intern/opencolorio/ocio_impl.cc\<close>\<close>

text \<open>
  The binding layer wraps the OpenColorIO library. The library itself is not part of the
  repository: a configuration, a colour space and a processor are modelled as records of
  the answers the library gives to the queries the binding layer makes.

  Conventions of the embedding:
  \<^item> a \<^verbatim>\<open>const char *\<close> is a \<^typ>\<open>string\<close> without the terminating NUL (and, being a
    C string, without any NUL inside); where the code can return \<^verbatim>\<open>NULL\<close> the
    result is a \<^typ>\<open>string option\<close>;
  \<^item> a \<^verbatim>\<open>std::string\<close> is a \<^typ>\<open>string\<close> that may hold NUL characters;
    \<^verbatim>\<open>c_str()\<close> reads it up to the first NUL;
  \<^item> a \<^verbatim>\<open>float\<close> is a value of a type parameter \<open>'f\<close>, and the arithmetic of the
    machine is a record of operations on it, so that nothing is assumed about rounding,
    NaN or signed zeros;
  \<^item> an OpenColorIO exception is the left summand of a sum type;
  \<^item> \<^verbatim>\<open>OCIO_reportException\<close> writes to the standard error stream (and aborts only in
    a build with \<^verbatim>\<open>WITH_ASSERT_ABORT\<close>); the message is not part of the model.
\<close>

subsection \<open>Floating point numbers\<close>

record 'f float_ops =
  f_lit :: "rat \<Rightarrow> 'f"                \<comment> \<open>the \<^verbatim>\<open>float\<close> of a literal, and of an \<^verbatim>\<open>int\<close>\<close>
  f_eq :: "'f \<Rightarrow> 'f \<Rightarrow> bool"          \<comment> \<open>\<^verbatim>\<open>==\<close>\<close>
  f_lt :: "'f \<Rightarrow> 'f \<Rightarrow> bool"          \<comment> \<open>\<^verbatim>\<open><\<close>\<close>
  f_add :: "'f \<Rightarrow> 'f \<Rightarrow> 'f"
  f_sub :: "'f \<Rightarrow> 'f \<Rightarrow> 'f"
  f_mul :: "'f \<Rightarrow> 'f \<Rightarrow> 'f"
  f_div :: "'f \<Rightarrow> 'f \<Rightarrow> 'f"
  f_abs :: "'f \<Rightarrow> 'f"                  \<comment> \<open>\<^verbatim>\<open>fabsf\<close>\<close>
  f_bits :: "'f \<Rightarrow> 32 word"            \<comment> \<open>\<^verbatim>\<open>*(int *)&a\<close>: the bit pattern\<close>

type_synonym 'f rgb = "'f \<times> 'f \<times> 'f"
type_synonym 'f rgba = "'f \<times> 'f \<times> 'f \<times> 'f"
type_synonym 'f m3 = "'f rgb \<times> 'f rgb \<times> 'f rgb"

text \<open>The exact arithmetic of the rationals, with a toy bit pattern: an instance of the
  operations on which the functions below can be run.\<close>

definition exact_ops :: "rat float_ops" where
  "exact_ops =
     \<lparr> f_lit = (\<lambda>q. q), f_eq = (\<lambda>a b. a = b), f_lt = (\<lambda>a b. a < b),
       f_add = (\<lambda>a b. a + b), f_sub = (\<lambda>a b. a - b), f_mul = (\<lambda>a b. a * b),
       f_div = (\<lambda>a b. a / b), f_abs = (\<lambda>a. \<bar>a\<bar>),
       f_bits = (\<lambda>a. word_of_int \<lfloor>a * 8388608\<rfloor>) \<rparr>"

subsection \<open>What the library answers\<close>

record 'f cpu_processor =
  applyRGB :: "'f rgb \<Rightarrow> 'f rgb"
  applyRGBA :: "'f rgba \<Rightarrow> 'f rgba"

record 'f processor =
  getDefaultCPUProcessor :: "'f cpu_processor option"   \<comment> \<open>\<open>None\<close>: a null pointer\<close>

type_synonym exception = string

record color_space =
  getName :: string
  getFamily :: string
  isData :: bool
  getTransform_to_reference :: bool
    \<comment> \<open>whether \<^verbatim>\<open>getTransform(COLORSPACE_DIR_TO_REFERENCE)\<close> is a non-null pointer\<close>

text \<open>The transforms the binding layer creates, with the fields it sets on them. A
  \<^verbatim>\<open>double\<close> that holds the value of a \<^verbatim>\<open>float\<close> is modelled as that value.\<close>

datatype 'f transform =
    ColorSpaceTransform (ct_src: string) (ct_dst: string)
  | MatrixTransform (mt_matrix: "'f list")
  | LookTransform (lt_src: string) (lt_dst: string) (lt_looks: string)
  | DisplayViewTransform (dvt_src: string) (dvt_looksBypass: bool)
      (dvt_view: string) (dvt_display: string)
  | ExponentTransform (et_value: "'f list")

record 'f config =
  getActiveDisplays :: string
  getDefaultDisplay :: "exception + string"
  getActiveViews :: string
  getNumViews :: "string \<Rightarrow> int"
  getView :: "string \<Rightarrow> int \<Rightarrow> string"
  getDefaultView :: "string \<Rightarrow> exception + string"
  hasRole :: "string \<Rightarrow> bool"
  getProcessor :: "string \<Rightarrow> string \<Rightarrow> exception + 'f processor option"
  getLooksResultColorSpace :: "string \<Rightarrow> exception + string"
    \<comment> \<open>\<^verbatim>\<open>LookTransform::GetLooksResultColorSpace\<close> in the current context\<close>
  getProcessor_transform :: "'f transform list \<Rightarrow> exception + 'f processor option"
    \<comment> \<open>\<^verbatim>\<open>getProcessor\<close> of a group transform\<close>

text \<open>What the C++ does not define, or does not catch.\<close>

datatype fault = NullDereference | Uncaught exception

definition ROLE_SCENE_LINEAR :: string where
  "ROLE_SCENE_LINEAR = ''scene_linear''"

subsection \<open>\<^verbatim>\<open>to_scene_linear_matrix\<close> and \<^verbatim>\<open>configGetXYZtoRGB\<close>\<close>

text \<open>The matrix is an in-out parameter: the model returns it beside the truth value, and
  unchanged on each of the three failures.\<close>

definition to_scene_linear_matrix ::
  "'f float_ops \<Rightarrow> 'f config \<Rightarrow> string \<Rightarrow> 'f m3 \<Rightarrow> bool \<times> 'f m3" where
  "to_scene_linear_matrix ops config colorspace to_scene_linear =
     (case getProcessor config colorspace ROLE_SCENE_LINEAR of
        Inl exception \<Rightarrow> (False, to_scene_linear)
      | Inr None \<Rightarrow> (False, to_scene_linear)
      | Inr (Some processor) \<Rightarrow>
          (case getDefaultCPUProcessor processor of
             None \<Rightarrow> (False, to_scene_linear)
           | Some device_processor \<Rightarrow>
               (let row0 = (f_lit ops 1, f_lit ops 0, f_lit ops 0);
                    row1 = (f_lit ops 0, f_lit ops 1, f_lit ops 0);
                    row2 = (f_lit ops 0, f_lit ops 0, f_lit ops 1)
                in (True, (applyRGB device_processor row0,
                           applyRGB device_processor row1,
                           applyRGB device_processor row2)))))"

definition xyz_to_aces :: "'f float_ops \<Rightarrow> 'f m3" where
  "xyz_to_aces ops =
     ((f_lit ops (10498110175 / 10000000000), f_lit ops (- 4959030231 / 10000000000), f_lit ops 0),
      (f_lit ops 0, f_lit ops (13733130458 / 10000000000), f_lit ops 0),
      (f_lit ops (- 974845 / 10000000000), f_lit ops (982400361 / 10000000000),
       f_lit ops (9912520182 / 10000000000)))"

text \<open>\<^verbatim>\<open>OCIO_XYZ_TO_LINEAR_SRGB\<close> (of \<^verbatim>\<open>ocio_impl.h\<close>) and \<^verbatim>\<open>mul_m3_m3m3\<close> (of
  \<^verbatim>\<open>BLI_math_matrix.h\<close>) are parameters. The parameter \<open>xyz_to_rgb\<close> is not read: the
  function overwrites it first.\<close>

definition configGetXYZtoRGB ::
  "'f float_ops \<Rightarrow> 'f m3 \<Rightarrow> ('f m3 \<Rightarrow> 'f m3 \<Rightarrow> 'f m3) \<Rightarrow> 'f config \<Rightarrow> 'f m3" where
  "configGetXYZtoRGB ops OCIO_XYZ_TO_LINEAR_SRGB mul_m3_m3m3 config =
     (let xyz_to_rgb = OCIO_XYZ_TO_LINEAR_SRGB in
      if \<not> hasRole config ROLE_SCENE_LINEAR then xyz_to_rgb
      else if hasRole config ''aces_interchange'' then
        (let aces_to_rgb = xyz_to_rgb \<comment> \<open>uninitialised in the code; read only after success\<close>
         in case to_scene_linear_matrix ops config ''aces_interchange'' aces_to_rgb of
              (True, aces_to_rgb) \<Rightarrow> mul_m3_m3m3 aces_to_rgb (xyz_to_aces ops)
            | (False, _) \<Rightarrow> xyz_to_rgb)
      else if hasRole config ''XYZ'' then
        snd (to_scene_linear_matrix ops config ''XXYZ'' xyz_to_rgb)
      else xyz_to_rgb)"

subsection \<open>Applying a processor to one pixel\<close>

definition processorApplyRGBA :: "'f cpu_processor \<Rightarrow> 'f rgba \<Rightarrow> 'f rgba" where
  "processorApplyRGBA processor pixel = applyRGBA processor pixel"

definition processorApplyRGBA_predivide ::
  "'f float_ops \<Rightarrow> 'f cpu_processor \<Rightarrow> 'f rgba \<Rightarrow> 'f rgba" where
  "processorApplyRGBA_predivide ops processor pixel =
     (case pixel of (pixel0, pixel1, pixel2, pixel3) \<Rightarrow>
        if f_eq ops pixel3 (f_lit ops 1) \<or> f_eq ops pixel3 (f_lit ops 0) then
          applyRGBA processor pixel
        else
          (let alpha = pixel3;
               inv_alpha = f_div ops (f_lit ops 1) alpha;
               pixel0 = f_mul ops pixel0 inv_alpha;
               pixel1 = f_mul ops pixel1 inv_alpha;
               pixel2 = f_mul ops pixel2 inv_alpha
           in case applyRGBA processor (pixel0, pixel1, pixel2, pixel3) of
                (pixel0, pixel1, pixel2, pixel3) \<Rightarrow>
                  (f_mul ops pixel0 alpha, f_mul ops pixel1 alpha, f_mul ops pixel2 alpha,
                   pixel3)))"

subsection \<open>\<^verbatim>\<open>createDisplayProcessor\<close>\<close>

text \<open>The pointer \<open>look\<close> may be null (\<open>None\<close>); \<^verbatim>\<open>strlen\<close> dereferences it. The group
  transform \<open>grp\<close> is the list of the transforms appended to it, in order.\<close>

definition createDisplayProcessor_group ::
  "'f float_ops \<Rightarrow> 'f config \<Rightarrow> string \<Rightarrow> string \<Rightarrow> string \<Rightarrow> string option \<Rightarrow> 'f \<Rightarrow> 'f
     \<Rightarrow> fault + 'f transform list" where
  "createDisplayProcessor_group ops config input view display look scale exponent =
     (let z = f_lit ops 0;
          (grp, input) =
            (if \<not> f_eq ops scale (f_lit ops 1) then
               ([ColorSpaceTransform input ROLE_SCENE_LINEAR,
                 MatrixTransform
                   [scale, z, z, z, z, scale, z, z, z, z, scale, z, z, z, z, f_lit ops 1]],
                ROLE_SCENE_LINEAR)
             else ([], input))
      in case look of
           None \<Rightarrow> Inl NullDereference
         | Some look_str \<Rightarrow>
             (case (if length look_str \<noteq> 0 then
                      (case getLooksResultColorSpace config look_str of
                         Inl e \<Rightarrow> Inl (Uncaught e)
                       | Inr look_output \<Rightarrow>
                           Inr (grp @ [LookTransform input look_output look_str], look_output))
                    else Inr (grp, input)) of
                Inl f \<Rightarrow> Inl f
              | Inr (grp, input) \<Rightarrow>
                  (let grp = grp @ [DisplayViewTransform input (look \<noteq> None) view display];
                       grp =
                         (if \<not> f_eq ops exponent (f_lit ops 1) then
                            grp @ [ExponentTransform [exponent, exponent, exponent, f_lit ops 1]]
                          else grp)
                   in Inr grp)))"

definition createDisplayProcessor ::
  "'f float_ops \<Rightarrow> 'f config \<Rightarrow> string \<Rightarrow> string \<Rightarrow> string \<Rightarrow> string option \<Rightarrow> 'f \<Rightarrow> 'f
     \<Rightarrow> fault + 'f processor option" where
  "createDisplayProcessor ops config input view display look scale exponent =
     (case createDisplayProcessor_group ops config input view display look scale exponent of
        Inl f \<Rightarrow> Inl f
      | Inr grp \<Rightarrow>
          (case getProcessor_transform config grp of
             Inl exception \<Rightarrow> Inr None
           | Inr p \<Rightarrow> Inr p))"

subsection \<open>\<^verbatim>\<open>colorSpaceIsInvertible\<close>\<close>

text \<open>The function returns \<^verbatim>\<open>int\<close>, and only ever the conversions of \<^verbatim>\<open>false\<close> and
  \<^verbatim>\<open>true\<close>: the model returns the truth value. \<^verbatim>\<open>!strcmp(a, b)\<close> is equality of the two
  C strings.\<close>

definition colorSpaceIsInvertible :: "color_space \<Rightarrow> bool" where
  "colorSpaceIsInvertible cs =
     (let family = getFamily cs in
      if family = ''rrt'' \<or> family = ''display'' then False
      else if isData cs then True
      else if getTransform_to_reference cs then True
      else True)"

subsection \<open>\<^verbatim>\<open>compare_floats\<close> and \<^verbatim>\<open>colorSpaceIsBuiltin\<close>\<close>

text \<open>\<^verbatim>\<open>abs\<close> of a 32-bit \<^verbatim>\<open>int\<close>. The difference of the two bit patterns and its
  absolute value overflow in C for some pairs (undefined there); the model wraps around,
  as the machine does.\<close>

definition abs_int32 :: "32 word \<Rightarrow> 32 word" where
  "abs_int32 w = (if sint w < 0 then - w else w)"

text \<open>The function is declared to return \<^verbatim>\<open>float\<close> and returns \<^verbatim>\<open>true\<close> or
  \<^verbatim>\<open>false\<close>; its callers only negate the result. The model returns the truth value.\<close>

definition compare_floats :: "'f float_ops \<Rightarrow> 'f \<Rightarrow> 'f \<Rightarrow> 'f \<Rightarrow> int \<Rightarrow> bool" where
  "compare_floats ops a b abs_diff ulp_diff =
     (if f_lt ops (f_abs ops (f_sub ops a b)) abs_diff then True
      else if f_lt ops a (f_lit ops 0) \<noteq> f_lt ops b (f_lit ops 0) then False
      else sint (abs_int32 (f_bits ops a - f_bits ops b)) < ulp_diff)"

text \<open>One round of the loop of \<^verbatim>\<open>colorSpaceIsBuiltin\<close>, from the two flags before it to
  \<open>(stop, is_scene_linear, is_srgb)\<close>: whether the round ends in \<^verbatim>\<open>break\<close>, and the two
  flags after it. \<^verbatim>\<open>srgb_to_linearrgb\<close> (of \<^verbatim>\<open>BLI_math_color.h\<close>) is a parameter.\<close>

definition colorSpaceIsBuiltin_sample ::
  "'f float_ops \<Rightarrow> ('f \<Rightarrow> 'f) \<Rightarrow> 'f cpu_processor \<Rightarrow> int \<Rightarrow> bool \<times> bool \<Rightarrow> bool \<times> bool \<times> bool"
  where
  "colorSpaceIsBuiltin_sample ops srgb_to_linearrgb device_processor i flags =
     (case flags of (is_scene_linear, is_srgb) \<Rightarrow>
      let v = f_div ops (f_lit ops (of_int i)) (f_lit ops 255);
          z = f_lit ops 0;
          gt = (\<lambda>x y. f_lt ops y x);
          eps5 = f_lit ops (1 / 100000);
          eps6 = f_lit ops (1 / 1000000)
      in case applyRGB device_processor (v, z, z) of (cR0, cR1, cR2) \<Rightarrow>
         case applyRGB device_processor (z, v, z) of (cG0, cG1, cG2) \<Rightarrow>
         case applyRGB device_processor (z, z, v) of (cB0, cB1, cB2) \<Rightarrow>
         case applyRGB device_processor (v, v, v) of (cW0, cW1, cW2) \<Rightarrow>
         if gt (f_abs ops cR1) eps5 \<or> gt (f_abs ops cR2) eps5 \<or> gt (f_abs ops cG0) eps5 \<or>
            gt (f_abs ops cG2) eps5 \<or> gt (f_abs ops cB0) eps5 \<or> gt (f_abs ops cB1) eps5
         then (True, False, False)
         else if \<not> compare_floats ops cR0 cW0 eps6 64 \<or> \<not> compare_floats ops cG1 cW1 eps6 64 \<or>
                 \<not> compare_floats ops cB2 cW2 eps6 64
         then (True, False, False)
         else if \<not> compare_floats ops cW0 cW1 eps6 64 \<or> \<not> compare_floats ops cW1 cW2 eps6 64
         then (True, False, False)
         else
           (let out_v = f_mul ops (f_add ops (f_add ops cW0 cW1) cW2)
                          (f_div ops (f_lit ops 1) (f_lit ops 3));
                is_scene_linear =
                  (if \<not> compare_floats ops v out_v eps6 64 then False else is_scene_linear);
                is_srgb =
                  (if \<not> compare_floats ops (srgb_to_linearrgb v) out_v eps6 64 then False
                   else is_srgb)
            in (False, is_scene_linear, is_srgb)))"

text \<open>The loop \<^verbatim>\<open>for (int i = 0; i < 256; i++)\<close>. Its state is the two flags and the
  number of calls of \<^verbatim>\<open>applyRGB\<close> made so far (four in every round), which the code does
  not count: the count makes the sampling visible in the result.\<close>

function colorSpaceIsBuiltin_loop ::
  "'f float_ops \<Rightarrow> ('f \<Rightarrow> 'f) \<Rightarrow> 'f cpu_processor \<Rightarrow> int \<Rightarrow> (bool \<times> bool) \<times> nat
     \<Rightarrow> (bool \<times> bool) \<times> nat" where
  "colorSpaceIsBuiltin_loop ops srgb_to_linearrgb device_processor i st =
     (if i < 256 then
        (case colorSpaceIsBuiltin_sample ops srgb_to_linearrgb device_processor i (fst st) of
           (True, flags) \<Rightarrow> (flags, snd st + 4)
         | (False, flags) \<Rightarrow>
             colorSpaceIsBuiltin_loop ops srgb_to_linearrgb device_processor (i + 1)
               (flags, snd st + 4))
      else st)"
  by pat_completeness auto
termination
  by (relation "measure (\<lambda>(ops, srgb, dp, i, st). nat (256 - i))") auto

declare colorSpaceIsBuiltin_loop.simps [simp del]

text \<open>The result is \<open>((is_scene_linear, is_srgb), calls)\<close>. A null processor or a null
  CPU processor is dereferenced without a test.\<close>

definition colorSpaceIsBuiltin ::
  "'f float_ops \<Rightarrow> ('f \<Rightarrow> 'f) \<Rightarrow> 'f config \<Rightarrow> color_space \<Rightarrow> fault + ((bool \<times> bool) \<times> nat)"
  where
  "colorSpaceIsBuiltin ops srgb_to_linearrgb config cs =
     (case getProcessor config (getName cs) ''scene_linear'' of
        Inl exception \<Rightarrow> Inr ((False, False), 0)
      | Inr None \<Rightarrow> Inl NullDereference
      | Inr (Some processor) \<Rightarrow>
          (case getDefaultCPUProcessor processor of
             None \<Rightarrow> Inl NullDereference
           | Some device_processor \<Rightarrow>
               Inr (colorSpaceIsBuiltin_loop ops srgb_to_linearrgb device_processor 0
                      ((True, True), 0))))"

subsection \<open>Strings\<close>

definition NUL :: char where
  "NUL = CHR 0x00"

definition c_str :: "string \<Rightarrow> string" where
  "c_str s = takeWhile (\<lambda>c. c \<noteq> NUL) s"

text \<open>\<^verbatim>\<open>strchr\<close> for a character other than NUL: the offset of its first occurrence (the
  code only ever subtracts the start of the string from the pointer), \<open>None\<close> for the
  null pointer.\<close>

fun strchr :: "string \<Rightarrow> char \<Rightarrow> nat option" where
  "strchr [] c = None"
| "strchr (x # xs) c = (if x = c then Some 0 else map_option Suc (strchr xs c))"

text \<open>\<^verbatim>\<open>std::string::substr\<close>; the position never exceeds the length where it is called.\<close>

definition substr :: "string \<Rightarrow> nat \<Rightarrow> nat \<Rightarrow> string" where
  "substr str pos n = take n (drop pos str)"

text \<open>The loop of \<^verbatim>\<open>splitStringEnvStyle\<close>. The three \<^verbatim>\<open>int\<close> variables are never
  negative and stay below the length of the string: they are natural numbers here.\<close>

function splitStringEnvStyle_loop ::
  "string \<Rightarrow> nat \<Rightarrow> nat \<Rightarrow> nat \<Rightarrow> nat \<Rightarrow> string list \<Rightarrow> nat \<times> nat \<times> string list" where
  "splitStringEnvStyle_loop str len i token_start token_length tokens =
     (if i < len then
        (let ch = str ! i in
         if ch \<noteq> CHR '','' \<and> ch \<noteq> CHR '':'' then
           splitStringEnvStyle_loop str len (i + 1) token_start (token_length + 1) tokens
         else
           splitStringEnvStyle_loop str len (i + 1) (i + 1) 0
             (if token_length > 0 then tokens @ [substr str token_start token_length]
              else tokens))
      else (token_start, token_length, tokens))"
  by pat_completeness auto
termination
  by (relation "measure (\<lambda>(str, len, i, token_start, token_length, tokens). len - i)") auto

declare splitStringEnvStyle_loop.simps [simp del]

text \<open>After the loop: the token that may be at the end of the string.\<close>

definition splitStringEnvStyle_end :: "string \<Rightarrow> nat \<times> nat \<times> string list \<Rightarrow> string list" where
  "splitStringEnvStyle_end str after_loop =
     (case after_loop of
        (token_start, token_length, tokens) \<Rightarrow>
          if token_length \<noteq> 0 then tokens @ [substr str token_start token_length]
          else tokens)"

definition splitStringEnvStyle :: "string \<Rightarrow> string list" where
  "splitStringEnvStyle str =
     splitStringEnvStyle_end str (splitStringEnvStyle_loop str (length str) 0 0 0 [])"

text \<open>\<^verbatim>\<open>tolower\<close> of the C library, in the C locale: the letters \<open>A\<close> to \<open>Z\<close> move to
  \<open>a\<close> to \<open>z\<close>, every other character stays.\<close>

definition tolower :: "char \<Rightarrow> char" where
  "tolower c =
     (if (65::nat) \<le> of_char c \<and> of_char c \<le> (90::nat) then char_of (of_char c + (32::nat))
      else c)"

definition stringToLower :: "string \<Rightarrow> string" where
  "stringToLower str = map tolower str"

subsection \<open>\<^verbatim>\<open>configGetDefaultDisplay\<close>\<close>

type_synonym env = "string \<rightharpoonup> string"

text \<open>The state is the function's static \<^verbatim>\<open>std::string active_display\<close>, empty when the
  process starts; the function returns its result and the new state. The mutex is not
  modelled: a call is one step.\<close>

definition configGetDefaultDisplay ::
  "env \<Rightarrow> 'f config \<Rightarrow> string \<Rightarrow> string option \<times> string" where
  "configGetDefaultDisplay getenv config active_display =
     (let library_default =
            (case getDefaultDisplay config of Inl exception \<Rightarrow> None | Inr d \<Rightarrow> Some d)
      in
      if getenv ''OCIO_ACTIVE_DISPLAYS'' = None then
        (let active_displays = getActiveDisplays config in
         if active_displays \<noteq> [] then
           (case strchr active_displays (CHR '','') of
              None \<Rightarrow> (Some active_displays, active_display)
            | Some separator_pos \<Rightarrow>
                (let active_display =
                       (if active_display = [] then active_displays[separator_pos := NUL]
                        else active_display)
                 in (Some (c_str active_display), active_display)))
         else (library_default, active_display))
      else (library_default, active_display))"

text \<open>A sequence of calls, each with its environment and its configuration: the state
  after the last one.\<close>

fun configGetDefaultDisplay_calls :: "(env \<times> 'f config) list \<Rightarrow> string \<Rightarrow> string" where
  "configGetDefaultDisplay_calls [] active_display = active_display"
| "configGetDefaultDisplay_calls ((getenv, config) # calls) active_display =
     configGetDefaultDisplay_calls calls
       (snd (configGetDefaultDisplay getenv config active_display))"

subsection \<open>\<^verbatim>\<open>configGetDefaultView\<close>\<close>

text \<open>The loop that collects the lower-case names of the views of the display.\<close>

function display_views_loop ::
  "'f config \<Rightarrow> string \<Rightarrow> int \<Rightarrow> int \<Rightarrow> string set \<Rightarrow> string set" where
  "display_views_loop config_ptr display num_display_views view_index display_views =
     (if view_index < num_display_views then
        (let view = getView config_ptr display view_index in
         display_views_loop config_ptr display num_display_views (view_index + 1)
           (insert (stringToLower view) display_views))
      else display_views)"
  by pat_completeness auto
termination
  by (relation "measure (\<lambda>(c, d, num_display_views, view_index, s).
        nat (num_display_views - view_index))") auto

declare display_views_loop.simps [simp del]

text \<open>The loop over the active views, which returns from the function at the first view
  the display supports.\<close>

fun first_supported_view :: "string set \<Rightarrow> string list \<Rightarrow> string option" where
  "first_supported_view display_views [] = None"
| "first_supported_view display_views (view # active_views) =
     (let view_lower = stringToLower view in
      if view_lower \<in> display_views then Some view
      else first_supported_view display_views active_views)"

text \<open>The state is the function's static \<^verbatim>\<open>map<string, string> default_display_views\<close>,
  empty when the process starts.\<close>

definition configGetDefaultView ::
  "env \<Rightarrow> 'f config \<Rightarrow> string \<Rightarrow> (string \<rightharpoonup> string)
     \<Rightarrow> string option \<times> (string \<rightharpoonup> string)" where
  "configGetDefaultView getenv config display default_display_views =
     (let library_default =
            (case getDefaultView config display of Inl exception \<Rightarrow> None | Inr v \<Rightarrow> Some v)
      in
      if getenv ''OCIO_ACTIVE_VIEWS'' = None then
        (let active_views_encoded = getActiveViews config in
         if active_views_encoded \<noteq> [] then
           (let display_lower = stringToLower display in
            case default_display_views display_lower of
              Some second \<Rightarrow> (Some (c_str second), default_display_views)
            | None \<Rightarrow>
                (let active_views = splitStringEnvStyle active_views_encoded;
                     num_display_views = getNumViews config display;
                     display_views =
                       display_views_loop config display num_display_views 0 {}
                 in case first_supported_view display_views active_views of
                      Some view \<Rightarrow>
                        (let default_display_views =
                               default_display_views(display_lower \<mapsto> view)
                         in (map_option c_str (default_display_views display_lower),
                             default_display_views))
                    | None \<Rightarrow> (library_default, default_display_views)))
         else (library_default, default_display_views))
      else (library_default, default_display_views))"

fun configGetDefaultView_calls ::
  "(env \<times> 'f config \<times> string) list \<Rightarrow> (string \<rightharpoonup> string) \<Rightarrow> (string \<rightharpoonup> string)" where
  "configGetDefaultView_calls [] default_display_views = default_display_views"
| "configGetDefaultView_calls ((getenv, config, display) # calls) default_display_views =
     configGetDefaultView_calls calls
       (snd (configGetDefaultView getenv config display default_display_views))"

subsection \<open>The words of the specification on lists in strings\<close>

text \<open>The fields of a string between separators: every separator ends a field and
  starts the next one, so that adjacent, leading and trailing separators give empty
  fields.\<close>

fun split_fields :: "(char \<Rightarrow> bool) \<Rightarrow> string \<Rightarrow> string list" where
  "split_fields sep [] = [[]]"
| "split_fields sep (c # cs) =
     (if sep c then [] # split_fields sep cs
      else (case split_fields sep cs of
              [] \<Rightarrow> [[c]]
            | t # ts \<Rightarrow> (c # t) # ts))"

definition is_comma :: "char \<Rightarrow> bool" where
  "is_comma c = (c = CHR '','')"

definition is_comma_or_colon :: "char \<Rightarrow> bool" where
  "is_comma_or_colon c = (c = CHR '','' \<or> c = CHR '':'')"

text \<open>The entries of an active-displays list, and its first entry.\<close>

definition display_entries :: "string \<Rightarrow> string list" where
  "display_entries active_displays = split_fields is_comma active_displays"

text \<open>The candidate views of an active-views string: its non-empty fields.\<close>

definition nonempty_fields :: "string \<Rightarrow> string list" where
  "nonempty_fields s = filter (\<lambda>t. t \<noteq> []) (split_fields is_comma_or_colon s)"

text \<open>A view of the display, under case-insensitive matching of the names.\<close>

definition is_view_of :: "'f config \<Rightarrow> string \<Rightarrow> string \<Rightarrow> bool" where
  "is_view_of config display view =
     (\<exists>k\<in>{0..<getNumViews config display}.
        stringToLower (getView config display k) = stringToLower view)"

subsection \<open>Concrete inputs\<close>

text \<open>A processor that doubles the colour and halves alpha, one that exchanges red and
  green, and a configuration with the roles \<open>scene_linear\<close> and \<open>XYZ\<close> in which only the
  colour spaces \<open>XYZ\<close> and \<open>Swapped\<close> convert to scene linear.\<close>

definition double_processor :: "rat cpu_processor" where
  "double_processor =
     \<lparr> applyRGB = (\<lambda>(r, g, b). (2 * r, 2 * g, 2 * b)),
       applyRGBA = (\<lambda>(r, g, b, a). (2 * r, 2 * g, 2 * b, a / 2)) \<rparr>"

definition swap_processor :: "rat cpu_processor" where
  "swap_processor =
     \<lparr> applyRGB = (\<lambda>(r, g, b). (g, r, b)),
       applyRGBA = (\<lambda>(r, g, b, a). (g, r, b, a)) \<rparr>"

definition plain_config :: "rat config" where
  "plain_config =
     \<lparr> getActiveDisplays = ''sRGB,Rec709'', getDefaultDisplay = Inr ''Rec709'',
       getActiveViews = ''Filmic,Standard'',
       getNumViews = (\<lambda>d. 2),
       getView = (\<lambda>d k. if k = 0 then ''Standard'' else ''Filmic''),
       getDefaultView = (\<lambda>d. Inr ''Standard''),
       hasRole = (\<lambda>r. r = ''scene_linear'' \<or> r = ''XYZ''),
       getProcessor =
         (\<lambda>src dst.
            if src = ''XYZ'' \<and> dst = ''scene_linear''
            then Inr (Some \<lparr>getDefaultCPUProcessor = Some double_processor\<rparr>)
            else if src = ''Swapped'' \<and> dst = ''scene_linear''
            then Inr (Some \<lparr>getDefaultCPUProcessor = Some swap_processor\<rparr>)
            else Inl ''no such colour space''),
       getLooksResultColorSpace = (\<lambda>l. Inr ''Linear''),
       getProcessor_transform = (\<lambda>g. Inl ''not compiled'') \<rparr>"

text \<open>The same configuration with active displays that are not in alphabetical
  order.\<close>

definition unordered_config :: "rat config" where
  "unordered_config = plain_config\<lparr>getActiveDisplays := ''display_b,display_a''\<rparr>"

text \<open>A configuration whose only active view, and only view of every display, is
  \<open>Raw\<close>.\<close>

definition raw_config :: "rat config" where
  "raw_config =
     plain_config\<lparr>getActiveViews := ''Raw'', getNumViews := (\<lambda>d. 1),
       getView := (\<lambda>d k. ''Raw'')\<rparr>"

definition bt709 :: "rat m3" where
  "bt709 =
     ((32404542 / 10000000, - 9692660 / 10000000, 556434 / 10000000),
      (- 15371385 / 10000000, 18760108 / 10000000, - 2040259 / 10000000),
      (- 4985314 / 10000000, 415560 / 10000000, 10572252 / 10000000))"

definition named_space :: "string \<Rightarrow> color_space" where
  "named_space n =
     \<lparr>getName = n, getFamily = ''linear'', isData = False, getTransform_to_reference = True\<rparr>"

section \<open>Properties\<close>

lemma exact_ops_simps:
  "f_lit exact_ops q = q" "f_eq exact_ops x y = (x = y)" "f_lt exact_ops x y = (x < y)"
  "f_add exact_ops x y = x + y" "f_sub exact_ops x y = x - y" "f_mul exact_ops x y = x * y"
  "f_div exact_ops x y = x / y" "f_abs exact_ops x = \<bar>x\<bar>"
  "f_bits exact_ops x = word_of_int \<lfloor>x * 8388608\<rfloor>"
  by (simp_all add: exact_ops_def)

subsection \<open>The display chain\<close>

lemma createDisplayProcessor_group_empty_look:
  "f_eq ops scale (f_lit ops 1) \<Longrightarrow> f_eq ops exponent (f_lit ops 1) \<Longrightarrow>
   createDisplayProcessor_group ops config input view display (Some []) scale exponent =
     Inr [DisplayViewTransform input True view display]"
  by (simp add: createDisplayProcessor_group_def)

text \<open>
  Claim C1. The display/view transform should bypass the looks if and only if a non-empty
  look was given, so that the chain for the empty look, scale 1 and exponent 1 holds one
  display/view transform whose flag is false. The code sets the flag to
  \<^verbatim>\<open>look != NULL\<close>, which holds for the empty string: at the empty look the chain is the
  one display/view transform, and its flag is true.
\<close>

theorem createDisplayProcessor_group_empty_look_bypass:
  "createDisplayProcessor_group exact_ops plain_config ''Linear'' ''Standard'' ''sRGB''
     (Some []) 1 1 =
   Inr [DisplayViewTransform ''Linear'' True ''Standard'' ''sRGB'']"
  by (rule createDisplayProcessor_group_empty_look) (simp_all add: exact_ops_simps)

subsection \<open>The matrix from XYZ\<close>

lemma configGetXYZtoRGB_legacy_role:
  "hasRole config ROLE_SCENE_LINEAR \<Longrightarrow> \<not> hasRole config ''aces_interchange'' \<Longrightarrow>
   hasRole config ''XYZ'' \<Longrightarrow>
   configGetXYZtoRGB ops dflt mul config =
     snd (to_scene_linear_matrix ops config ''XXYZ'' dflt)"
  by (simp add: configGetXYZtoRGB_def)

text \<open>
  Claim C2. With the scene linear role, without the role \<open>aces_interchange\<close> and with the
  role \<open>XYZ\<close>, the matrix should be the scene linear conversion of the role \<open>XYZ\<close> applied
  to the three basis vectors. The code tests the role \<open>XYZ\<close> and converts from \<open>XXYZ\<close>: in
  a configuration where \<open>XYZ\<close> converts (to twice the identity) and nothing is named
  \<open>XXYZ\<close>, the result is the default matrix it started from.
\<close>

theorem configGetXYZtoRGB_legacy_role_name:
  "hasRole plain_config ROLE_SCENE_LINEAR \<and> \<not> hasRole plain_config ''aces_interchange'' \<and>
   hasRole plain_config ''XYZ'' \<and>
   to_scene_linear_matrix exact_ops plain_config ''XYZ'' bt709 =
     (True, ((2, 0, 0), (0, 2, 0), (0, 0, 2))) \<and>
   configGetXYZtoRGB exact_ops bt709 (\<lambda>a b. a) plain_config = bt709"
  by (simp add: configGetXYZtoRGB_def to_scene_linear_matrix_def plain_config_def
      ROLE_SCENE_LINEAR_def exact_ops_simps double_processor_def)

subsection \<open>Predivide\<close>

text \<open>
  Claim C5. On a pixel \<open>(r, g, b, a)\<close> the predivide apply is the plain RGBA apply when
  \<open>a\<close> equals 1 or 0. For every other \<open>a\<close> it divides \<open>r\<close>, \<open>g\<close> and \<open>b\<close> by \<open>a\<close> (the code
  multiplies by the reciprocal \<^verbatim>\<open>1.0f / a\<close>), applies the transform to the four
  channels, and multiplies the first three channels of the result by the \<open>a\<close> it was
  given; the fourth channel is the transformed alpha.
\<close>

theorem processorApplyRGBA_predivide_cases:
  "(f_eq ops a (f_lit ops 1) \<or> f_eq ops a (f_lit ops 0) \<longrightarrow>
      processorApplyRGBA_predivide ops processor (r, g, b, a) =
        processorApplyRGBA processor (r, g, b, a)) \<and>
   (\<not> (f_eq ops a (f_lit ops 1) \<or> f_eq ops a (f_lit ops 0)) \<longrightarrow>
      processorApplyRGBA processor
        (f_mul ops r (f_div ops (f_lit ops 1) a), f_mul ops g (f_div ops (f_lit ops 1) a),
         f_mul ops b (f_div ops (f_lit ops 1) a), a) = (r', g', b', a') \<longrightarrow>
      processorApplyRGBA_predivide ops processor (r, g, b, a) =
        (f_mul ops r' a, f_mul ops g' a, f_mul ops b' a, a'))"
  by (simp add: processorApplyRGBA_predivide_def processorApplyRGBA_def Let_def)

theorem processorApplyRGBA_predivide_cases_witness:
  "processorApplyRGBA_predivide exact_ops double_processor (1/5, 2/5, 3/5, 1/2) =
     (2 * ((1/5) / (1/2)) * (1/2), 2 * ((2/5) / (1/2)) * (1/2), 2 * ((3/5) / (1/2)) * (1/2),
      1/4) \<and>
   processorApplyRGBA_predivide exact_ops double_processor (1/5, 2/5, 3/5, 1) =
     processorApplyRGBA double_processor (1/5, 2/5, 3/5, 1) \<and>
   processorApplyRGBA_predivide exact_ops double_processor (1/5, 2/5, 3/5, 0) =
     processorApplyRGBA double_processor (1/5, 2/5, 3/5, 0)"
  using
    processorApplyRGBA_predivide_cases
      [where ops = exact_ops and a = "1/2" and processor = double_processor
         and r = "1/5" and g = "2/5" and b = "3/5"
         and r' = "4/5" and g' = "8/5" and b' = "12/5" and a' = "1/4"]
    processorApplyRGBA_predivide_cases
      [where ops = exact_ops and a = 1 and processor = double_processor
         and r = "1/5" and g = "2/5" and b = "3/5"]
    processorApplyRGBA_predivide_cases
      [where ops = exact_ops and a = 0 and processor = double_processor
         and r = "1/5" and g = "2/5" and b = "3/5"]
  by (simp add: exact_ops_simps processorApplyRGBA_def double_processor_def)

subsection \<open>Classification\<close>

text \<open>
  Claim C7. When the transform from the colour space to \<open>scene_linear\<close> cannot be built
  (\<^verbatim>\<open>getProcessor\<close> throws), \<^verbatim>\<open>colorSpaceIsBuiltin\<close> reports false for both flags and
  has applied no processor to any probe.
\<close>

theorem colorSpaceIsBuiltin_no_processor:
  "getProcessor config (getName cs) ''scene_linear'' = Inl e \<Longrightarrow>
   colorSpaceIsBuiltin ops srgb_to_linearrgb config cs = Inr ((False, False), 0)"
  by (simp add: colorSpaceIsBuiltin_def)

theorem colorSpaceIsBuiltin_no_processor_witness:
  "getProcessor plain_config (getName (named_space ''Unknown'')) ''scene_linear'' =
     Inl ''no such colour space'' \<and>
   colorSpaceIsBuiltin exact_ops (\<lambda>x. x) plain_config (named_space ''Unknown'') =
     Inr ((False, False), 0)"
proof -
  have h: "getProcessor plain_config (getName (named_space ''Unknown'')) ''scene_linear'' =
      Inl ''no such colour space''"
    by (simp add: plain_config_def named_space_def)
  from h colorSpaceIsBuiltin_no_processor [OF h, of exact_ops "\<lambda>x. x"] show ?thesis
    by simp
qed


text \<open>One round of the loop, from any two flags, is the round from two true flags with
  the flags before it conjoined: a round never sets a flag.\<close>

lemma colorSpaceIsBuiltin_sample_conj:
  "colorSpaceIsBuiltin_sample ops srgb dp i (sl, sr) =
     (let t = colorSpaceIsBuiltin_sample ops srgb dp i (True, True)
      in (fst t, sl \<and> fst (snd t), sr \<and> snd (snd t)))"
  by (simp add: colorSpaceIsBuiltin_sample_def Let_def case_prod_beta)

lemma colorSpaceIsBuiltin_loop_done:
  "\<not> i < 256 \<Longrightarrow> colorSpaceIsBuiltin_loop ops srgb dp i st = st"
  by (simp add: colorSpaceIsBuiltin_loop.simps [of ops srgb dp i st])

lemma colorSpaceIsBuiltin_loop_stop:
  assumes "i < 256" and "fst (colorSpaceIsBuiltin_sample ops srgb dp i (True, True))"
  shows "colorSpaceIsBuiltin_loop ops srgb dp i st =
           ((fst (fst st) \<and> fst (snd (colorSpaceIsBuiltin_sample ops srgb dp i (True, True))),
             snd (fst st) \<and> snd (snd (colorSpaceIsBuiltin_sample ops srgb dp i (True, True)))),
            snd st + 4)"
proof -
  obtain sl sr n where st: "st = ((sl, sr), n)" by (metis surj_pair)
  show ?thesis
    using assms
    unfolding st
    by (subst colorSpaceIsBuiltin_loop.simps)
       (simp add: colorSpaceIsBuiltin_sample_conj [of ops srgb dp i sl sr] Let_def)
qed

lemma colorSpaceIsBuiltin_loop_continue:
  assumes "i < 256" and "\<not> fst (colorSpaceIsBuiltin_sample ops srgb dp i (True, True))"
  shows "colorSpaceIsBuiltin_loop ops srgb dp i st =
           colorSpaceIsBuiltin_loop ops srgb dp (i + 1)
             ((fst (fst st) \<and> fst (snd (colorSpaceIsBuiltin_sample ops srgb dp i (True, True))),
               snd (fst st) \<and> snd (snd (colorSpaceIsBuiltin_sample ops srgb dp i (True, True)))),
              snd st + 4)"
proof -
  obtain sl sr n where st: "st = ((sl, sr), n)" by (metis surj_pair)
  show ?thesis
    using assms
    unfolding st
    by (subst colorSpaceIsBuiltin_loop.simps)
       (simp add: colorSpaceIsBuiltin_sample_conj [of ops srgb dp i sl sr] Let_def)
qed

text \<open>The loop from round \<open>i\<close> runs the rounds \<open>i\<close> to \<open>k - 1\<close>: none but the last one
  stops, and the last one stops unless it is round 255. Each flag of the result is the
  flag before the loop conjoined with what these rounds say.\<close>

lemma colorSpaceIsBuiltin_loop_rounds:
  fixes ops :: "'f float_ops"
  shows "i \<le> 256 \<Longrightarrow>
   \<exists>k. i \<le> k \<and> k \<le> 256 \<and>
     colorSpaceIsBuiltin_loop ops srgb dp i st =
       ((fst (fst st) \<and>
           (\<forall>j. i \<le> j \<and> j < k \<longrightarrow>
                fst (snd (colorSpaceIsBuiltin_sample ops srgb dp j (True, True)))),
         snd (fst st) \<and>
           (\<forall>j. i \<le> j \<and> j < k \<longrightarrow>
                snd (snd (colorSpaceIsBuiltin_sample ops srgb dp j (True, True))))),
        snd st + 4 * nat (k - i)) \<and>
     (\<forall>j. i \<le> j \<and> j < k - 1 \<longrightarrow>
          \<not> fst (colorSpaceIsBuiltin_sample ops srgb dp j (True, True))) \<and>
     (k < 256 \<longrightarrow> i < k \<and> fst (colorSpaceIsBuiltin_sample ops srgb dp (k - 1) (True, True)))"
proof (induction ops srgb dp i st rule: colorSpaceIsBuiltin_loop.induct)
  case (1 ops srgb dp i st)
  let ?V = "\<lambda>j. colorSpaceIsBuiltin_sample ops srgb dp j (True, True)"
  show ?case
  proof (cases "i < 256")
    case False
    with "1.prems" have "i = 256" by simp
    have e: "\<And>j::int. (256 \<le> j \<and> j < 256) = False" "\<And>j::int. (256 \<le> j \<and> j < 255) = False"
      by arith+
    from \<open>i = 256\<close> colorSpaceIsBuiltin_loop_done [of i ops srgb dp st] show ?thesis
      by (intro exI [of _ 256]) (simp add: e)
  next
    case lt: True
    show ?thesis
    proof (cases "fst (?V i)")
      case True
      have iv: "\<And>j. (i \<le> j \<and> j \<le> i) = (j = i)" "\<And>j. (i \<le> j \<and> j < i) = False"
        by arith+
      from colorSpaceIsBuiltin_loop_stop [OF lt True, of st] lt True show ?thesis
        by (intro exI [of _ "i + 1"]) (simp add: iv)
    next
      case False
      obtain stop l s
        where v: "colorSpaceIsBuiltin_sample ops srgb dp i (fst st) = (stop, l, s)"
        by (metis prod_cases3)
      have vs: "stop = fst (?V i)" "l = (fst (fst st) \<and> fst (snd (?V i)))"
        "s = (snd (fst st) \<and> snd (snd (?V i)))"
        using v colorSpaceIsBuiltin_sample_conj [of ops srgb dp i "fst (fst st)" "snd (fst st)"]
        by (simp_all add: Let_def)
      with False have stop: "\<not> stop" by simp
      let ?st = "((l, s), snd st + 4)"
      from lt have "i + 1 \<le> 256" by simp
      from "1.IH" [OF lt v [symmetric] _ this] stop
      obtain k where k: "i + 1 \<le> k" "k \<le> 256"
        and r: "colorSpaceIsBuiltin_loop ops srgb dp (i + 1) ?st =
           ((fst (fst ?st) \<and> (\<forall>j. i + 1 \<le> j \<and> j < k \<longrightarrow> fst (snd (?V j))),
             snd (fst ?st) \<and> (\<forall>j. i + 1 \<le> j \<and> j < k \<longrightarrow> snd (snd (?V j)))),
            snd ?st + 4 * nat (k - (i + 1)))"
        and ns: "\<forall>j. i + 1 \<le> j \<and> j < k - 1 \<longrightarrow> \<not> fst (?V j)"
        and last: "k < 256 \<longrightarrow> i + 1 < k \<and> fst (?V (k - 1))"
        by auto
      have split:
        "\<And>P. (\<forall>j. i \<le> j \<and> j < k \<longrightarrow> P j) = (P i \<and> (\<forall>j. i + 1 \<le> j \<and> j < k \<longrightarrow> P j))"
      proof -
        fix P :: "int \<Rightarrow> bool"
        have "\<And>j. (i \<le> j) = (j = i \<or> i + 1 \<le> j)" by arith
        with k
        show "(\<forall>j. i \<le> j \<and> j < k \<longrightarrow> P j) = (P i \<and> (\<forall>j. i + 1 \<le> j \<and> j < k \<longrightarrow> P j))"
          by auto
      qed
      have cnt: "snd st + 4 + 4 * nat (k - (i + 1)) = snd st + 4 * nat (k - i)"
        using k by simp
      have ns': "\<forall>j. i \<le> j \<and> j < k - 1 \<longrightarrow> \<not> fst (?V j)"
      proof (intro allI impI)
        fix j assume "i \<le> j \<and> j < k - 1"
        then have "j = i \<or> (i + 1 \<le> j \<and> j < k - 1)" by arith
        with False ns show "\<not> fst (?V j)" by blast
      qed
      have eq: "colorSpaceIsBuiltin_loop ops srgb dp i st =
          colorSpaceIsBuiltin_loop ops srgb dp (i + 1) ?st"
        using colorSpaceIsBuiltin_loop_continue [OF lt False, of st] vs by simp
      show ?thesis
      proof (intro exI [of _ k] conjI)
        show "i \<le> k" using k by simp
        show "k \<le> 256" by fact
        show "colorSpaceIsBuiltin_loop ops srgb dp i st =
          ((fst (fst st) \<and> (\<forall>j. i \<le> j \<and> j < k \<longrightarrow> fst (snd (?V j))),
            snd (fst st) \<and> (\<forall>j. i \<le> j \<and> j < k \<longrightarrow> snd (snd (?V j)))),
           snd st + 4 * nat (k - i))"
          unfolding eq r split [of "\<lambda>j. fst (snd (?V j))"] split [of "\<lambda>j. snd (snd (?V j))"]
          using vs cnt by simp
        show "\<forall>j. i \<le> j \<and> j < k - 1 \<longrightarrow> \<not> fst (?V j)" by (rule ns')
        show "k < 256 \<longrightarrow> i < k \<and> fst (?V (k - 1))" using last by auto
      qed
    qed
  qed
qed

lemma colorSpaceIsBuiltin_loop_clears:
  "(fst (fst (colorSpaceIsBuiltin_loop ops srgb dp i st)) \<longrightarrow> fst (fst st)) \<and>
   (snd (fst (colorSpaceIsBuiltin_loop ops srgb dp i st)) \<longrightarrow> snd (fst st))"
proof (cases "i \<le> 256")
  case True
  from colorSpaceIsBuiltin_loop_rounds [OF True, of ops srgb dp st] show ?thesis
    by auto
next
  case False
  then have "\<not> i < 256" by simp
  then show ?thesis
    by (simp add: colorSpaceIsBuiltin_loop_done)
qed

text \<open>
  Claim C6. When the processor exists, the loop of \<^verbatim>\<open>colorSpaceIsBuiltin\<close> starts with
  both flags true. No round of it sets a flag that was false before the round, and no
  flag that is false at the start of some round is true when the loop ends. The loop
  examines the samples \<open>0\<close> to \<open>k - 1\<close> for some \<open>k\<close> between 1 and 256 (it stops after
  the first sample that fails a hard check, and \<open>k\<close> is 256 when none does), with four
  calls of the processor each, and each returned flag is the conjunction over these
  samples of what the sample alone says about the flag.
\<close>

theorem colorSpaceIsBuiltin_flags:
  assumes p: "getProcessor config (getName cs) ''scene_linear'' = Inr (Some processor)"
    and d: "getDefaultCPUProcessor processor = Some dp"
  shows
    "colorSpaceIsBuiltin ops srgb config cs =
       Inr (colorSpaceIsBuiltin_loop ops srgb dp 0 ((True, True), 0)) \<and>
     (\<forall>i sl sr.
        (fst (snd (colorSpaceIsBuiltin_sample ops srgb dp i (sl, sr))) \<longrightarrow> sl) \<and>
        (snd (snd (colorSpaceIsBuiltin_sample ops srgb dp i (sl, sr))) \<longrightarrow> sr)) \<and>
     (\<forall>i st.
        (fst (fst (colorSpaceIsBuiltin_loop ops srgb dp i st)) \<longrightarrow> fst (fst st)) \<and>
        (snd (fst (colorSpaceIsBuiltin_loop ops srgb dp i st)) \<longrightarrow> snd (fst st))) \<and>
     (\<exists>k. 0 < k \<and> k \<le> 256 \<and>
        colorSpaceIsBuiltin ops srgb config cs =
          Inr (((\<forall>j\<in>{0..<k}. fst (snd (colorSpaceIsBuiltin_sample ops srgb dp j (True, True)))),
                (\<forall>j\<in>{0..<k}. snd (snd (colorSpaceIsBuiltin_sample ops srgb dp j (True, True))))),
               4 * nat k) \<and>
        (\<forall>j\<in>{0..<k - 1}. \<not> fst (colorSpaceIsBuiltin_sample ops srgb dp j (True, True))) \<and>
        (k < 256 \<longrightarrow> fst (colorSpaceIsBuiltin_sample ops srgb dp (k - 1) (True, True))))"
proof (intro conjI)
  show start: "colorSpaceIsBuiltin ops srgb config cs =
       Inr (colorSpaceIsBuiltin_loop ops srgb dp 0 ((True, True), 0))"
    by (simp add: colorSpaceIsBuiltin_def p d)
  show "\<forall>i sl sr.
        (fst (snd (colorSpaceIsBuiltin_sample ops srgb dp i (sl, sr))) \<longrightarrow> sl) \<and>
        (snd (snd (colorSpaceIsBuiltin_sample ops srgb dp i (sl, sr))) \<longrightarrow> sr)"
  proof (intro allI)
    fix i sl sr
    show "(fst (snd (colorSpaceIsBuiltin_sample ops srgb dp i (sl, sr))) \<longrightarrow> sl) \<and>
        (snd (snd (colorSpaceIsBuiltin_sample ops srgb dp i (sl, sr))) \<longrightarrow> sr)"
      by (simp add: colorSpaceIsBuiltin_sample_conj [of ops srgb dp i sl sr] Let_def)
  qed
  show "\<forall>i st.
        (fst (fst (colorSpaceIsBuiltin_loop ops srgb dp i st)) \<longrightarrow> fst (fst st)) \<and>
        (snd (fst (colorSpaceIsBuiltin_loop ops srgb dp i st)) \<longrightarrow> snd (fst st))"
    using colorSpaceIsBuiltin_loop_clears [of ops srgb dp] by blast
  have "(0::int) \<le> 256" by simp
  from colorSpaceIsBuiltin_loop_rounds [OF this, of ops srgb dp "((True, True), 0)"]
  obtain k where k: "0 \<le> k" "k \<le> 256"
    and r: "colorSpaceIsBuiltin_loop ops srgb dp 0 ((True, True), 0) =
       (((\<forall>j. 0 \<le> j \<and> j < k \<longrightarrow> fst (snd (colorSpaceIsBuiltin_sample ops srgb dp j (True, True)))),
         (\<forall>j. 0 \<le> j \<and> j < k \<longrightarrow> snd (snd (colorSpaceIsBuiltin_sample ops srgb dp j (True, True))))),
        4 * nat k)"
    and ns: "\<forall>j. 0 \<le> j \<and> j < k - 1 \<longrightarrow> \<not> fst (colorSpaceIsBuiltin_sample ops srgb dp j (True, True))"
    and last: "k < 256 \<longrightarrow> 0 < k \<and> fst (colorSpaceIsBuiltin_sample ops srgb dp (k - 1) (True, True))"
    by auto
  from k last have "0 < k" by auto
  with k r ns last start
  show "\<exists>k. 0 < k \<and> k \<le> 256 \<and>
        colorSpaceIsBuiltin ops srgb config cs =
          Inr (((\<forall>j\<in>{0..<k}. fst (snd (colorSpaceIsBuiltin_sample ops srgb dp j (True, True)))),
                (\<forall>j\<in>{0..<k}. snd (snd (colorSpaceIsBuiltin_sample ops srgb dp j (True, True))))),
               4 * nat k) \<and>
        (\<forall>j\<in>{0..<k - 1}. \<not> fst (colorSpaceIsBuiltin_sample ops srgb dp j (True, True))) \<and>
        (k < 256 \<longrightarrow> fst (colorSpaceIsBuiltin_sample ops srgb dp (k - 1) (True, True)))"
    by (intro exI [of _ k]) (simp add: Ball_def)
qed

lemma colorSpaceIsBuiltin_sample_swap_0:
  "colorSpaceIsBuiltin_sample exact_ops (\<lambda>x. x) swap_processor 0 (True, True) =
     (False, True, True)"
  by (simp add: colorSpaceIsBuiltin_sample_def exact_ops_simps swap_processor_def
      compare_floats_def Let_def)

lemma colorSpaceIsBuiltin_sample_swap_1:
  "colorSpaceIsBuiltin_sample exact_ops (\<lambda>x. x) swap_processor 1 (True, True) =
     (True, False, False)"
  by (simp add: colorSpaceIsBuiltin_sample_def exact_ops_simps swap_processor_def
      compare_floats_def Let_def)


theorem colorSpaceIsBuiltin_flags_witness:
  "getProcessor plain_config (getName (named_space ''Swapped'')) ''scene_linear'' =
     Inr (Some \<lparr>getDefaultCPUProcessor = Some swap_processor\<rparr>) \<and>
   getDefaultCPUProcessor \<lparr>getDefaultCPUProcessor = Some swap_processor\<rparr> = Some swap_processor \<and>
   colorSpaceIsBuiltin exact_ops (\<lambda>x. x) plain_config (named_space ''Swapped'') =
     Inr ((False, False), 8)"
proof -
  have p: "getProcessor plain_config (getName (named_space ''Swapped'')) ''scene_linear'' =
     Inr (Some \<lparr>getDefaultCPUProcessor = Some swap_processor\<rparr>)"
    by (simp add: plain_config_def named_space_def)
  have d: "getDefaultCPUProcessor \<lparr>getDefaultCPUProcessor = Some swap_processor\<rparr> =
      Some swap_processor"
    by simp
  have "colorSpaceIsBuiltin exact_ops (\<lambda>x. x) plain_config (named_space ''Swapped'') =
       Inr (colorSpaceIsBuiltin_loop exact_ops (\<lambda>x. x) swap_processor 0 ((True, True), 0))"
    using colorSpaceIsBuiltin_flags [OF p d, of exact_ops "\<lambda>x. x"] by blast
  also have "colorSpaceIsBuiltin_loop exact_ops (\<lambda>x. x) swap_processor 0 ((True, True), 0) =
      colorSpaceIsBuiltin_loop exact_ops (\<lambda>x. x) swap_processor 1 ((True, True), 4)"
    using colorSpaceIsBuiltin_loop_continue [of 0 exact_ops "\<lambda>x. x" swap_processor "((True, True), 0)"]
    by (simp add: colorSpaceIsBuiltin_sample_swap_0)
  also have "\<dots> = ((False, False), 8)"
    using colorSpaceIsBuiltin_loop_stop [of 1 exact_ops "\<lambda>x. x" swap_processor "((True, True), 4)"]
    by (simp add: colorSpaceIsBuiltin_sample_swap_1)
  finally show ?thesis using p d by simp
qed


subsection \<open>Splitting a string\<close>

lemma fields_not_Nil: "split_fields sep s \<noteq> []"
  by (induction s) (auto split: list.splits)

lemma fields_Cons_sep: "sep c \<Longrightarrow> split_fields sep (c # cs) = [] # split_fields sep cs"
  by simp

lemma fields_Cons_other:
  "\<not> sep c \<Longrightarrow> split_fields sep (c # cs) = (c # hd (split_fields sep cs)) # tl (split_fields sep cs)"
  using fields_not_Nil [of sep cs] by (simp split: list.splits)

lemma hd_fields: "hd (split_fields sep s) = takeWhile (\<lambda>c. \<not> sep c) s"
  by (induction s) (simp_all add: fields_Cons_other fields_Cons_sep del: split_fields.simps(2))

lemma fields_no_separator: "t \<in> set (split_fields sep s) \<Longrightarrow> c \<in> set t \<Longrightarrow> \<not> sep c"
proof (induction s arbitrary: t)
  case Nil
  then show ?case by simp
next
  case (Cons x xs)
  show ?case
  proof (cases "sep x")
    case True
    with Cons show ?thesis by auto
  next
    case False
    from Cons.prems False
    have "t = x # hd (split_fields sep xs) \<or> t \<in> set (tl (split_fields sep xs))"
      by (simp add: fields_Cons_other del: split_fields.simps(2))
    moreover have "hd (split_fields sep xs) \<in> set (split_fields sep xs)"
      using fields_not_Nil by simp
    moreover have "set (tl (split_fields sep xs)) \<subseteq> set (split_fields sep xs)"
      by (metis list.set_sel(2) subsetI tl_Nil)
    ultimately show ?thesis using Cons.IH Cons.prems(2) False by auto
  qed
qed

lemma concat_fields: "concat (split_fields sep s) = filter (\<lambda>c. \<not> sep c) s"
proof (induction s)
  case Nil
  then show ?case by simp
next
  case (Cons x xs)
  have "concat (split_fields sep xs) = hd (split_fields sep xs) @ concat (tl (split_fields sep xs))"
    using fields_not_Nil [of sep xs] by (cases "split_fields sep xs") simp_all
  with Cons show ?case
    by (cases "sep x") (simp_all add: fields_Cons_other fields_Cons_sep del: split_fields.simps(2))
qed

lemma length_fields: "length (split_fields sep s) = Suc (length (filter sep s))"
proof (induction s)
  case Nil
  then show ?case by simp
next
  case (Cons x xs)
  then show ?case
    using fields_not_Nil [of sep xs]
    by (cases "sep x") (simp_all add: fields_Cons_other fields_Cons_sep del: split_fields.simps(2))
qed

lemma splitStringEnvStyle_loop_fields:
  "len = length str \<Longrightarrow> i \<le> len \<Longrightarrow> token_start + token_length = i \<Longrightarrow>
   splitStringEnvStyle_end str (splitStringEnvStyle_loop str len i token_start token_length tokens) =
     tokens @ filter (\<lambda>t. t \<noteq> [])
       ((substr str token_start token_length @ hd (split_fields is_comma_or_colon (drop i str)))
          # tl (split_fields is_comma_or_colon (drop i str)))"
proof (induction str len i token_start token_length tokens rule: splitStringEnvStyle_loop.induct)
  case (1 str len i token_start token_length tokens)
  let ?cur = "substr str token_start token_length"
  have cur_len: "length ?cur = token_length"
    using "1.prems" by (simp add: substr_def)
  show ?case
  proof (cases "i < len")
    case False
    with "1.prems" have "i = length str" by simp
    then have "drop i str = []" by simp
    moreover have "(?cur \<noteq> []) = (token_length \<noteq> 0)"
      using cur_len by (metis length_0_conv)
    ultimately show ?thesis
      using False by (subst splitStringEnvStyle_loop.simps) (simp add: splitStringEnvStyle_end_def)
  next
    case lt: True
    with "1.prems" have d: "drop i str = (str ! i) # drop (i + 1) str"
      by (simp add: Cons_nth_drop_Suc)
    let ?F = "split_fields is_comma_or_colon (drop (i + 1) str)"
    show ?thesis
    proof (cases "str ! i \<noteq> CHR '','' \<and> str ! i \<noteq> CHR '':''")
      case True
      then have ns: "\<not> is_comma_or_colon (str ! i)" by (simp add: is_comma_or_colon_def)
      have step: "splitStringEnvStyle_loop str len i token_start token_length tokens =
          splitStringEnvStyle_loop str len (i + 1) token_start (token_length + 1) tokens"
        using lt True by (subst splitStringEnvStyle_loop.simps) (simp add: Let_def)
      have cur': "substr str token_start (token_length + 1) = ?cur @ [str ! i]"
        using "1.prems" lt by (simp add: substr_def take_Suc_conv_app_nth)
      from lt have "i + 1 \<le> len" by simp
      from "1.IH"(1) [OF lt refl True "1.prems"(1) this] "1.prems"(3)
      have "splitStringEnvStyle_end str (splitStringEnvStyle_loop str len (i + 1) token_start (token_length + 1) tokens) =
          tokens @ filter (\<lambda>t. t \<noteq> [])
            ((substr str token_start (token_length + 1) @ hd ?F) # tl ?F)"
        by simp
      then show ?thesis
        unfolding step d
          fields_Cons_other [of is_comma_or_colon "str ! i" "drop (i + 1) str", OF ns] cur'
        by simp
    next
      case False
      then have s: "is_comma_or_colon (str ! i)" by (auto simp: is_comma_or_colon_def)
      let ?tokens = "if token_length > 0 then tokens @ [?cur] else tokens"
      have step: "splitStringEnvStyle_loop str len i token_start token_length tokens =
          splitStringEnvStyle_loop str len (i + 1) (i + 1) 0 ?tokens"
        using lt False by (subst splitStringEnvStyle_loop.simps) (auto simp: Let_def)
      from lt have le: "i + 1 \<le> len" by simp
      have F: "(substr str (i + 1) 0 @ hd ?F) # tl ?F = ?F"
        using fields_not_Nil [of is_comma_or_colon "drop (i + 1) str"] by (simp add: substr_def)
      from "1.IH"(2) [OF lt refl False "1.prems"(1) le]
      have "splitStringEnvStyle_end str (splitStringEnvStyle_loop str len (i + 1) (i + 1) 0 ?tokens) =
          ?tokens @ filter (\<lambda>t. t \<noteq> []) ((substr str (i + 1) 0 @ hd ?F) # tl ?F)"
        by simp
      then have ih: "splitStringEnvStyle_end str (splitStringEnvStyle_loop str len (i + 1) (i + 1) 0 ?tokens) =
          ?tokens @ filter (\<lambda>t. t \<noteq> []) ?F"
        by (simp only: F)
      have "(?cur \<noteq> []) = (token_length > 0)"
        using cur_len by (metis length_greater_0_conv)
      then have tk: "?tokens = tokens @ filter (\<lambda>t. t \<noteq> []) [?cur]"
        by simp
      have "tokens @ filter (\<lambda>t. t \<noteq> [])
              ((?cur @ hd ([] # ?F)) # tl ([] # ?F)) =
            (tokens @ filter (\<lambda>t. t \<noteq> []) [?cur]) @ filter (\<lambda>t. t \<noteq> []) ?F"
        by simp
      with ih tk show ?thesis
        unfolding step d
          fields_Cons_sep [of is_comma_or_colon "str ! i" "drop (i + 1) str", OF s]
        by (simp only:)
    qed
  qed
qed

lemma splitStringEnvStyle_fields: "splitStringEnvStyle str = nonempty_fields str"
proof -
  have "splitStringEnvStyle_end str (splitStringEnvStyle_loop str (length str) 0 0 0 []) =
     [] @ filter (\<lambda>t. t \<noteq> [])
       ((substr str 0 0 @ hd (split_fields is_comma_or_colon (drop 0 str)))
          # tl (split_fields is_comma_or_colon (drop 0 str)))"
    by (rule splitStringEnvStyle_loop_fields) simp_all
  then show ?thesis
    using fields_not_Nil [of is_comma_or_colon str]
    by (simp add: splitStringEnvStyle_def splitStringEnvStyle_end_def nonempty_fields_def substr_def)
qed


lemma first_supported_view_mem:
  "first_supported_view S vs = Some v \<Longrightarrow> v \<in> set vs \<and> stringToLower v \<in> S"
  by (induction vs) (auto simp: Let_def split: if_splits)

lemma configGetDefaultView_miss:
  assumes "getenv ''OCIO_ACTIVE_VIEWS'' = None" and "getActiveViews config \<noteq> []"
    and "default_display_views (stringToLower display) = None"
  shows "configGetDefaultView getenv config display default_display_views =
     (case first_supported_view
             (display_views_loop config display (getNumViews config display) 0 {})
             (nonempty_fields (getActiveViews config)) of
        Some view \<Rightarrow>
          (Some (c_str view), default_display_views(stringToLower display \<mapsto> view))
      | None \<Rightarrow>
          (case getDefaultView config display of Inl exception \<Rightarrow> None | Inr v \<Rightarrow> Some v,
           default_display_views))"
  using assms
  by (simp add: configGetDefaultView_def splitStringEnvStyle_fields Let_def
      split: option.splits)

text \<open>
  Claim C9. \<^verbatim>\<open>splitStringEnvStyle\<close> gives the non-empty fields of the string between
  commas and colons, in order: no token is empty and no token holds a comma or a colon.
  When \<^verbatim>\<open>configGetDefaultView\<close> parses the active views (no override variable, a
  non-empty list, no cached view for the display), its answer is the library's own
  default view or one of these fields.
\<close>

theorem splitStringEnvStyle_nonempty_fields:
  "splitStringEnvStyle s = nonempty_fields s \<and>
   (\<forall>t\<in>set (splitStringEnvStyle s). t \<noteq> [] \<and> CHR '','' \<notin> set t \<and> CHR '':'' \<notin> set t) \<and>
   (getenv ''OCIO_ACTIVE_VIEWS'' = None \<and> getActiveViews config \<noteq> [] \<and>
    default_display_views (stringToLower display) = None \<longrightarrow>
      fst (configGetDefaultView getenv config display default_display_views) =
        (case getDefaultView config display of Inl exception \<Rightarrow> None | Inr v \<Rightarrow> Some v) \<or>
      (\<exists>view\<in>set (nonempty_fields (getActiveViews config)).
         fst (configGetDefaultView getenv config display default_display_views) =
           Some (c_str view)))"
proof (intro conjI impI)
  show "splitStringEnvStyle s = nonempty_fields s"
    by (rule splitStringEnvStyle_fields)
  show "\<forall>t\<in>set (splitStringEnvStyle s). t \<noteq> [] \<and> CHR '','' \<notin> set t \<and> CHR '':'' \<notin> set t"
    using fields_no_separator [of _ is_comma_or_colon s]
    by (auto simp: splitStringEnvStyle_fields nonempty_fields_def is_comma_or_colon_def)
  assume a: "getenv ''OCIO_ACTIVE_VIEWS'' = None \<and> getActiveViews config \<noteq> [] \<and>
    default_display_views (stringToLower display) = None"
  let ?found = "first_supported_view
      (display_views_loop config display (getNumViews config display) 0 {})
      (nonempty_fields (getActiveViews config))"
  from a have r: "configGetDefaultView getenv config display default_display_views =
     (case ?found of
        Some view \<Rightarrow>
          (Some (c_str view), default_display_views(stringToLower display \<mapsto> view))
      | None \<Rightarrow>
          (case getDefaultView config display of Inl exception \<Rightarrow> None | Inr v \<Rightarrow> Some v,
           default_display_views))"
    by (intro configGetDefaultView_miss) simp_all
  show "fst (configGetDefaultView getenv config display default_display_views) =
        (case getDefaultView config display of Inl exception \<Rightarrow> None | Inr v \<Rightarrow> Some v) \<or>
      (\<exists>view\<in>set (nonempty_fields (getActiveViews config)).
         fst (configGetDefaultView getenv config display default_display_views) =
           Some (c_str view))"
  proof (cases ?found)
    case None
    with r show ?thesis by simp
  next
    case (Some view)
    with first_supported_view_mem [OF Some] r show ?thesis by auto
  qed
qed

theorem splitStringEnvStyle_nonempty_fields_witness:
  "splitStringEnvStyle '',Filmic:,Standard,'' = [''Filmic'', ''Standard''] \<and>
   (fst (configGetDefaultView Map.empty plain_config ''sRGB'' Map.empty) = Some ''Standard'' \<or>
    (\<exists>view\<in>{''Filmic'', ''Standard''}.
       fst (configGetDefaultView Map.empty plain_config ''sRGB'' Map.empty) =
         Some (c_str view)))"
  using splitStringEnvStyle_nonempty_fields
    [where s = "'',Filmic:,Standard,''" and getenv = Map.empty and config = plain_config
       and display = "''sRGB''" and default_display_views = Map.empty]
  by (simp add: nonempty_fields_def is_comma_or_colon_def plain_config_def)

subsection \<open>The default display\<close>

lemma strchr_Some:
  "strchr s c = Some n \<Longrightarrow> n < length s \<and> take n s = takeWhile (\<lambda>x. x \<noteq> c) s"
proof (induction s arbitrary: n)
  case Nil
  then show ?case by simp
next
  case (Cons x xs)
  then show ?case by (auto split: if_splits)
qed

lemma strchr_None: "(strchr s c = None) = (c \<notin> set s)"
  by (induction s) auto

lemma c_str_update:
  assumes "n < length s" and "NUL \<notin> set (take n s)"
  shows "c_str (s[n := NUL]) = take n s"
proof -
  have "s[n := NUL] = take n s @ NUL # drop (Suc n) s"
    using assms(1) by (rule upd_conv_take_nth_drop)
  moreover have "takeWhile (\<lambda>c. c \<noteq> NUL) (take n s @ NUL # drop (Suc n) s) = take n s"
    using assms(2) by (subst takeWhile_append2) auto
  ultimately show ?thesis by (simp add: c_str_def)
qed

lemma c_str_id: "NUL \<notin> set s \<Longrightarrow> c_str s = s"
  by (auto simp: c_str_def)

lemma hd_display_entries: "hd (display_entries s) = takeWhile (\<lambda>x. x \<noteq> CHR '','') s"
  by (simp add: display_entries_def hd_fields is_comma_def)

lemma configGetDefaultDisplay_single:
  assumes "getenv ''OCIO_ACTIVE_DISPLAYS'' = None" and "getActiveDisplays config \<noteq> []"
    and "CHR '','' \<notin> set (getActiveDisplays config)"
  shows "configGetDefaultDisplay getenv config active_display =
           (Some (getActiveDisplays config), active_display)"
  using assms strchr_None [of "getActiveDisplays config" "CHR '',''"]
  by (simp add: configGetDefaultDisplay_def)

lemma configGetDefaultDisplay_multi:
  assumes "getenv ''OCIO_ACTIVE_DISPLAYS'' = None" and "CHR '','' \<in> set (getActiveDisplays config)"
  shows "\<exists>n. strchr (getActiveDisplays config) (CHR '','') = Some n \<and>
     configGetDefaultDisplay getenv config active_display =
       (let a = (if active_display = [] then (getActiveDisplays config)[n := NUL]
                 else active_display)
        in (Some (c_str a), a))"
proof -
  from assms(2) obtain n where n: "strchr (getActiveDisplays config) (CHR '','') = Some n"
    using strchr_None [of "getActiveDisplays config" "CHR '',''"] by auto
  from assms(2) have "getActiveDisplays config \<noteq> []" by auto
  with n assms(1) show ?thesis
    by (simp add: configGetDefaultDisplay_def Let_def)
qed

lemma configGetDefaultDisplay_state_kept:
  "active_display \<noteq> [] \<Longrightarrow>
   snd (configGetDefaultDisplay getenv config active_display) = active_display"
  by (simp add: configGetDefaultDisplay_def Let_def split: option.splits)

lemma configGetDefaultDisplay_calls_kept:
  "active_display \<noteq> [] \<Longrightarrow> configGetDefaultDisplay_calls calls active_display = active_display"
proof (induction calls)
  case Nil
  then show ?case by simp
next
  case (Cons c calls)
  obtain getenv config where c: "c = (getenv, config)" by (cases c)
  from Cons show ?case
    by (simp add: c configGetDefaultDisplay_state_kept)
qed

text \<open>
  Claim C3, as the code has it. Without the override variable, for a non-empty
  active-displays list (a C string), \<^verbatim>\<open>configGetDefaultDisplay\<close> returns the first entry
  of the list when the list has one entry, or when the static \<^verbatim>\<open>active_display\<close> is
  still empty (no list of several entries was resolved before in the process), or when
  it already holds that first entry.
\<close>

theorem configGetDefaultDisplay_first_entry:
  assumes env: "getenv ''OCIO_ACTIVE_DISPLAYS'' = None"
    and ne: "getActiveDisplays config \<noteq> []"
    and nul: "NUL \<notin> set (getActiveDisplays config)"
    and st: "CHR '','' \<notin> set (getActiveDisplays config) \<or> active_display = [] \<or>
             c_str active_display = hd (display_entries (getActiveDisplays config))"
  shows "fst (configGetDefaultDisplay getenv config active_display) =
           Some (hd (display_entries (getActiveDisplays config)))"
proof (cases "CHR '','' \<in> set (getActiveDisplays config)")
  case False
  then have tw: "takeWhile (\<lambda>x. x \<noteq> CHR '','') (getActiveDisplays config) = getActiveDisplays config"
    by auto
  show ?thesis
    unfolding hd_display_entries tw configGetDefaultDisplay_single [of getenv config active_display, OF env ne False]
    by simp
next
  case True
  from configGetDefaultDisplay_multi [of getenv config active_display, OF env True]
  obtain n where n: "strchr (getActiveDisplays config) (CHR '','') = Some n"
    and r: "configGetDefaultDisplay getenv config active_display =
       (let a = (if active_display = [] then (getActiveDisplays config)[n := NUL]
                 else active_display)
        in (Some (c_str a), a))"
    by blast
  from strchr_Some [OF n]
  have t: "n < length (getActiveDisplays config)"
    "take n (getActiveDisplays config) = takeWhile (\<lambda>x. x \<noteq> CHR '','') (getActiveDisplays config)"
    by simp_all
  have "NUL \<notin> set (take n (getActiveDisplays config))"
    using nul by (meson in_set_takeD)
  from c_str_update [OF t(1) this] t(2)
  have "c_str ((getActiveDisplays config)[n := NUL]) = hd (display_entries (getActiveDisplays config))"
    by (simp add: hd_display_entries)
  with r st True show ?thesis
    by (auto simp: Let_def)
qed


theorem configGetDefaultDisplay_first_entry_witness:
  "fst (configGetDefaultDisplay Map.empty unordered_config []) = Some ''display_b''"
  using configGetDefaultDisplay_first_entry [of Map.empty unordered_config "[]"]
  by (simp add: unordered_config_def plain_config_def NUL_def display_entries_def is_comma_def)

text \<open>As the claim states it, for every configuration, it fails on the second of two
  calls with different configurations: the list \<open>display_b,display_a\<close> is answered with
  the display cached for the list \<open>sRGB,Rec709\<close>.\<close>

theorem configGetDefaultDisplay_first_entry_counterexample:
  "getActiveDisplays unordered_config = ''display_b,display_a'' \<and>
   hd (display_entries (getActiveDisplays unordered_config)) = ''display_b'' \<and>
   fst (configGetDefaultDisplay Map.empty unordered_config
          (snd (configGetDefaultDisplay Map.empty plain_config []))) = Some ''sRGB''"
  by (simp add: configGetDefaultDisplay_def unordered_config_def plain_config_def NUL_def
      c_str_def display_entries_def is_comma_def)

text \<open>
  Claim C10. The cache of \<^verbatim>\<open>configGetDefaultDisplay\<close> is one string for the process.
  After a call without the override variable for a list of several entries, every later
  such call, for whatever configuration and after whatever calls in between, returns
  what that call returned, and the cache stays as that call left it.
\<close>

theorem configGetDefaultDisplay_cache_shared:
  assumes "getenv1 ''OCIO_ACTIVE_DISPLAYS'' = None"
    and "CHR '','' \<in> set (getActiveDisplays config1)"
    and "getenv2 ''OCIO_ACTIVE_DISPLAYS'' = None"
    and "CHR '','' \<in> set (getActiveDisplays config2)"
  shows "fst (configGetDefaultDisplay getenv2 config2
                (configGetDefaultDisplay_calls calls
                   (snd (configGetDefaultDisplay getenv1 config1 active_display)))) =
         fst (configGetDefaultDisplay getenv1 config1 active_display) \<and>
         snd (configGetDefaultDisplay getenv1 config1 active_display) \<noteq> [] \<and>
         snd (configGetDefaultDisplay getenv2 config2
                (configGetDefaultDisplay_calls calls
                   (snd (configGetDefaultDisplay getenv1 config1 active_display)))) =
         snd (configGetDefaultDisplay getenv1 config1 active_display)"
proof -
  let ?st1 = "snd (configGetDefaultDisplay getenv1 config1 active_display)"
  from configGetDefaultDisplay_multi [of getenv1 config1 active_display, OF assms(1,2)]
  obtain n where n: "strchr (getActiveDisplays config1) (CHR '','') = Some n"
    and r1: "configGetDefaultDisplay getenv1 config1 active_display =
       (let a = (if active_display = [] then (getActiveDisplays config1)[n := NUL]
                 else active_display)
        in (Some (c_str a), a))"
    by blast
  from assms(2) have "getActiveDisplays config1 \<noteq> []" by auto
  with r1 have ne: "?st1 \<noteq> []" and f1: "fst (configGetDefaultDisplay getenv1 config1 active_display) = Some (c_str ?st1)"
    by (auto simp: Let_def)
  from configGetDefaultDisplay_calls_kept [OF ne, of calls]
  have k: "configGetDefaultDisplay_calls calls ?st1 = ?st1" .
  from configGetDefaultDisplay_multi [of getenv2 config2 ?st1, OF assms(3,4)] ne
  have "configGetDefaultDisplay getenv2 config2 ?st1 = (Some (c_str ?st1), ?st1)"
    by (auto simp: Let_def)
  with k f1 ne show ?thesis by simp
qed


theorem configGetDefaultDisplay_cache_shared_witness:
  "fst (configGetDefaultDisplay Map.empty unordered_config
          (configGetDefaultDisplay_calls [(Map.empty, unordered_config)]
             (snd (configGetDefaultDisplay Map.empty plain_config [])))) = Some ''sRGB''"
  using configGetDefaultDisplay_cache_shared
    [of Map.empty plain_config Map.empty unordered_config "[(Map.empty, unordered_config)]" "[]"]
  by (simp add: configGetDefaultDisplay_def unordered_config_def plain_config_def NUL_def
      c_str_def)

subsection \<open>The default view\<close>

lemma display_views_loop_set:
  "display_views_loop config d num i acc =
     acc \<union> (\<lambda>k. stringToLower (getView config d k)) ` {i..<num}"
proof (induction config d num i acc rule: display_views_loop.induct)
  case (1 config d num i acc)
  show ?case
  proof (cases "i < num")
    case False
    then show ?thesis
      by (subst display_views_loop.simps) simp
  next
    case True
    then have "{i..<num} = insert i {i + 1..<num}" by auto
    with True "1.IH" [OF True refl] show ?thesis
      by (subst display_views_loop.simps) (simp add: Let_def)
  qed
qed

lemma display_views_loop_is_view_of:
  "(stringToLower view \<in> display_views_loop config display (getNumViews config display) 0 {}) =
     is_view_of config display view"
proof -
  have "(stringToLower view \<in> (\<lambda>k. stringToLower (getView config display k)) `
            {0..<getNumViews config display}) =
        (\<exists>k\<in>{0..<getNumViews config display}.
            stringToLower (getView config display k) = stringToLower view)"
    by (rule iffI) (erule imageE, erule rev_bexI, simp, erule bexE, erule rev_image_eqI, simp)
  then show ?thesis
    by (simp add: display_views_loop_set is_view_of_def)
qed

lemma first_supported_view_append:
  "\<forall>u\<in>set pre. stringToLower u \<notin> S \<Longrightarrow> stringToLower v \<in> S \<Longrightarrow>
   first_supported_view S (pre @ v # post) = Some v"
  by (induction pre) (simp_all add: Let_def)

lemma first_supported_view_None:
  "(first_supported_view S vs = None) = (\<forall>u\<in>set vs. stringToLower u \<notin> S)"
  by (induction vs) (simp_all add: Let_def)

lemma nonempty_fields_subset: "t \<in> set (nonempty_fields s) \<Longrightarrow> set t \<subseteq> set s"
proof -
  assume "t \<in> set (nonempty_fields s)"
  then have "t \<in> set (split_fields is_comma_or_colon s)"
    by (simp add: nonempty_fields_def)
  then have "set t \<subseteq> set (concat (split_fields is_comma_or_colon s))"
    by auto
  then show ?thesis
    by (auto simp: concat_fields)
qed

lemma configGetDefaultView_hit:
  assumes "getenv ''OCIO_ACTIVE_VIEWS'' = None" and "getActiveViews config \<noteq> []"
    and "default_display_views (stringToLower display) = Some view"
  shows "configGetDefaultView getenv config display default_display_views =
           (Some (c_str view), default_display_views)"
  using assms by (simp add: configGetDefaultView_def)

lemma configGetDefaultView_state_kept:
  "default_display_views k = Some v \<Longrightarrow>
   snd (configGetDefaultView getenv config display default_display_views) k = Some v"
  by (auto simp: configGetDefaultView_def Let_def split: option.splits)

lemma configGetDefaultView_calls_kept:
  "default_display_views k = Some v \<Longrightarrow>
   configGetDefaultView_calls calls default_display_views k = Some v"
proof (induction calls arbitrary: default_display_views)
  case Nil
  then show ?case by simp
next
  case (Cons c calls)
  obtain getenv config display where c: "c = (getenv, config, display)" by (cases c)
  from Cons.prems have "snd (configGetDefaultView getenv config display default_display_views) k = Some v"
    by (rule configGetDefaultView_state_kept)
  from Cons.IH [of "snd (configGetDefaultView getenv config display default_display_views)", OF this]
  show ?case
    by (simp add: c)
qed

lemma configGetDefaultView_cached_later:
  assumes "default_display_views (stringToLower display) = Some view"
    and "c_str view = view"
    and "getenv' ''OCIO_ACTIVE_VIEWS'' = None" and "getActiveViews config' \<noteq> []"
    and "stringToLower display' = stringToLower display"
  shows "fst (configGetDefaultView getenv' config' display'
                (configGetDefaultView_calls calls default_display_views)) = Some view"
proof -
  let ?m = "configGetDefaultView_calls calls default_display_views"
  from assms(1) have "?m (stringToLower display) = Some view"
    by (rule configGetDefaultView_calls_kept)
  with assms(5) have "?m (stringToLower display') = Some view"
    by simp
  from configGetDefaultView_hit [of getenv' config' ?m display' view, OF assms(3,4) this] assms(2)
  show ?thesis by simp
qed

lemma configGetDefaultView_first_view:
  assumes env: "getenv ''OCIO_ACTIVE_VIEWS'' = None"
    and ne: "getActiveViews config \<noteq> []"
    and nul: "NUL \<notin> set (getActiveViews config)"
    and miss: "default_display_views (stringToLower display) = None"
    and entries: "nonempty_fields (getActiveViews config) = pre @ view # post"
    and view: "is_view_of config display view"
    and pre: "\<forall>u\<in>set pre. \<not> is_view_of config display u"
  shows "configGetDefaultView getenv config display default_display_views =
           (Some view, default_display_views(stringToLower display \<mapsto> view))"
    and "c_str view = view"
proof -
  let ?S = "display_views_loop config display (getNumViews config display) 0 {}"
  have "first_supported_view ?S (pre @ view # post) = Some view"
    using view pre
    by (intro first_supported_view_append) (simp_all add: display_views_loop_is_view_of)
  moreover have "view \<in> set (nonempty_fields (getActiveViews config))"
    by (simp add: entries)
  then have "NUL \<notin> set view"
    using nonempty_fields_subset nul by blast
  then show cs: "c_str view = view" by (rule c_str_id)
  ultimately show "configGetDefaultView getenv config display default_display_views =
           (Some view, default_display_views(stringToLower display \<mapsto> view))"
    unfolding
      configGetDefaultView_miss [of getenv config default_display_views display, OF env ne miss]
    by (simp add: entries)
qed

text \<open>
  Claim C4, as the code has it. Without the override variable, for a non-empty
  active-views list (a C string), when no view is cached yet under the lower-case name of
  the display: if \<open>view\<close> is the first candidate of the list that is a view of the display
  under case-insensitive matching, \<^verbatim>\<open>configGetDefaultView\<close> returns it and caches it
  under the lower-case name of the display. Every later call without the override
  variable and with a non-empty active-views list, for a display of the same lower-case
  name, returns that view again: for whatever configuration and after whatever calls in
  between.
\<close>

theorem configGetDefaultView_first_supported:
  fixes config :: "'f config"
  assumes env: "getenv ''OCIO_ACTIVE_VIEWS'' = None"
    and ne: "getActiveViews config \<noteq> []"
    and nul: "NUL \<notin> set (getActiveViews config)"
    and miss: "default_display_views (stringToLower display) = None"
    and entries: "nonempty_fields (getActiveViews config) = pre @ view # post"
    and view: "is_view_of config display view"
    and pre: "\<forall>u\<in>set pre. \<not> is_view_of config display u"
  shows "configGetDefaultView getenv config display default_display_views =
           (Some view, default_display_views(stringToLower display \<mapsto> view)) \<and>
         (\<forall>calls getenv' (config' :: 'f config) display'.
            getenv' ''OCIO_ACTIVE_VIEWS'' = None \<and> getActiveViews config' \<noteq> [] \<and>
            stringToLower display' = stringToLower display \<longrightarrow>
            fst (configGetDefaultView getenv' config' display'
                   (configGetDefaultView_calls calls
                      (snd (configGetDefaultView getenv config display default_display_views))))
              = Some view)"
proof (intro conjI)
  note first = configGetDefaultView_first_view
    [where getenv = getenv and config = config and default_display_views = default_display_views
       and display = display and pre = pre and view = view and post = post,
     OF env ne nul miss entries view pre]
  show "configGetDefaultView getenv config display default_display_views =
           (Some view, default_display_views(stringToLower display \<mapsto> view))"
    by (rule first(1))
  have "\<And>calls getenv' (config' :: 'f config) display'.
          getenv' ''OCIO_ACTIVE_VIEWS'' = None \<and> getActiveViews config' \<noteq> [] \<and>
          stringToLower display' = stringToLower display \<Longrightarrow>
          fst (configGetDefaultView getenv' config' display'
                 (configGetDefaultView_calls calls
                    (default_display_views(stringToLower display \<mapsto> view)))) = Some view"
    using first(2) by (intro configGetDefaultView_cached_later [of _ display view]) simp_all
  then show "\<forall>calls getenv' (config' :: 'f config) display'.
            getenv' ''OCIO_ACTIVE_VIEWS'' = None \<and> getActiveViews config' \<noteq> [] \<and>
            stringToLower display' = stringToLower display \<longrightarrow>
            fst (configGetDefaultView getenv' config' display'
                   (configGetDefaultView_calls calls
                      (snd (configGetDefaultView getenv config display default_display_views))))
              = Some view"
    unfolding first(1) snd_conv by blast
qed

lemma stringToLower_examples:
  "stringToLower ''Filmic'' = ''filmic''" "stringToLower ''sRGB'' = ''srgb''"
  "stringToLower ''SRGB'' = ''srgb''" "stringToLower ''Raw'' = ''raw''"
  by code_simp+

lemma is_view_of_plain_Filmic: "is_view_of plain_config ''sRGB'' ''Filmic''"
  unfolding is_view_of_def
  by (rule bexI [of _ 1]) (simp_all add: plain_config_def)

lemma nonempty_fields_plain:
  "nonempty_fields (getActiveViews plain_config) = [] @ ''Filmic'' # [''Standard'']"
  by (simp add: plain_config_def nonempty_fields_def is_comma_or_colon_def)

theorem configGetDefaultView_first_supported_witness:
  "configGetDefaultView Map.empty plain_config ''sRGB'' Map.empty =
     (Some ''Filmic'', [''srgb'' \<mapsto> ''Filmic'']) \<and>
   fst (configGetDefaultView Map.empty raw_config ''SRGB''
          (configGetDefaultView_calls [(Map.empty, raw_config, ''Rec709'')]
             (snd (configGetDefaultView Map.empty plain_config ''sRGB'' Map.empty)))) =
     Some ''Filmic''"
proof -
  have env: "(Map.empty :: env) ''OCIO_ACTIVE_VIEWS'' = None" by simp
  have ne: "getActiveViews plain_config \<noteq> []" by (simp add: plain_config_def)
  have n: "NUL \<notin> set (getActiveViews plain_config)"
    by (simp add: plain_config_def NUL_def)
  have miss: "(Map.empty :: string \<rightharpoonup> string) (stringToLower ''sRGB'') = None" by simp
  have pre: "\<forall>u\<in>set []. \<not> is_view_of plain_config ''sRGB'' u" by simp
  note w = configGetDefaultView_first_supported
    [where getenv = Map.empty and config = plain_config and default_display_views = Map.empty
       and display = "''sRGB''" and pre = "[]" and view = "''Filmic''"
       and post = "[''Standard'']",
     OF env ne n miss nonempty_fields_plain is_view_of_plain_Filmic pre]
  have v: "getActiveViews raw_config \<noteq> []"
    by (simp add: raw_config_def)
  have "fst (configGetDefaultView Map.empty raw_config ''SRGB''
          (configGetDefaultView_calls [(Map.empty, raw_config, ''Rec709'')]
             (snd (configGetDefaultView Map.empty plain_config ''sRGB'' Map.empty)))) =
     Some ''Filmic''"
    using w [THEN conjunct2, rule_format,
        of Map.empty raw_config "''SRGB''" "[(Map.empty, raw_config, ''Rec709'')]"] v
    by (simp add: stringToLower_examples)
  with w [THEN conjunct1] show ?thesis
    by (simp add: stringToLower_examples)
qed

text \<open>As the claim states it, for every configuration, it fails on the second of two
  calls for the same display with different configurations: the only active view of the
  second configuration is \<open>Raw\<close>, a view of the display, and the answer is the view
  \<open>Filmic\<close> cached from the first configuration.\<close>

theorem configGetDefaultView_first_supported_counterexample:
  "nonempty_fields (getActiveViews raw_config) = [''Raw''] \<and>
   is_view_of raw_config ''sRGB'' ''Raw'' \<and>
   fst (configGetDefaultView Map.empty raw_config ''sRGB''
          (snd (configGetDefaultView Map.empty plain_config ''sRGB'' Map.empty))) =
     Some ''Filmic''"
proof -
  have env: "(Map.empty :: env) ''OCIO_ACTIVE_VIEWS'' = None" by simp
  have ne: "getActiveViews plain_config \<noteq> []" by (simp add: plain_config_def)
  have n: "NUL \<notin> set (getActiveViews plain_config)"
    by (simp add: plain_config_def NUL_def)
  have miss: "(Map.empty :: string \<rightharpoonup> string) (stringToLower ''sRGB'') = None" by simp
  have pre: "\<forall>u\<in>set []. \<not> is_view_of plain_config ''sRGB'' u" by simp
  note first = configGetDefaultView_first_view
    [where getenv = Map.empty and config = plain_config and default_display_views = Map.empty
       and display = "''sRGB''" and pre = "[]" and view = "''Filmic''"
       and post = "[''Standard'']",
     OF env ne n miss nonempty_fields_plain is_view_of_plain_Filmic pre]
  have v: "getActiveViews raw_config \<noteq> []"
    by (simp add: raw_config_def)
  have "fst (configGetDefaultView Map.empty raw_config ''sRGB''
          (configGetDefaultView_calls [] ([stringToLower ''sRGB'' \<mapsto> ''Filmic'']))) =
     Some ''Filmic''"
    by (rule configGetDefaultView_cached_later [of _ "''sRGB''"])
       (simp_all add: first(2) v)
  moreover have "is_view_of raw_config ''sRGB'' ''Raw''"
    unfolding is_view_of_def
    by (rule bexI [of _ 0]) (simp_all add: raw_config_def)
  moreover have "nonempty_fields (getActiveViews raw_config) = [''Raw'']"
    by (simp add: raw_config_def nonempty_fields_def is_comma_or_colon_def)
  ultimately show ?thesis
    by (simp add: first(1))
qed

subsection \<open>Invertibility\<close>

text \<open>
  Claim C8. \<^verbatim>\<open>colorSpaceIsInvertible\<close> answers false for a colour space whose family is
  exactly \<open>rrt\<close> or exactly \<open>display\<close>; for every other colour space it answers true: when
  the space is a data space, and also when it is not, whether or not it has a transform
  to the reference space. The family test comes first, as in the code: a data space of
  family \<open>display\<close> is not invertible.
\<close>

theorem colorSpaceIsInvertible_family:
  "(getFamily cs = ''rrt'' \<or> getFamily cs = ''display'' \<longrightarrow> \<not> colorSpaceIsInvertible cs) \<and>
   (getFamily cs \<noteq> ''rrt'' \<and> getFamily cs \<noteq> ''display'' \<and> isData cs
      \<longrightarrow> colorSpaceIsInvertible cs) \<and>
   (getFamily cs \<noteq> ''rrt'' \<and> getFamily cs \<noteq> ''display'' \<and> \<not> isData cs
      \<longrightarrow> colorSpaceIsInvertible cs) \<and>
   colorSpaceIsInvertible cs = (getFamily cs \<noteq> ''rrt'' \<and> getFamily cs \<noteq> ''display'')"
  by (simp add: colorSpaceIsInvertible_def Let_def)

theorem colorSpaceIsInvertible_family_witness:
  "\<not> colorSpaceIsInvertible
      \<lparr>getName = ''Filmic'', getFamily = ''display'', isData = True,
       getTransform_to_reference = False\<rparr> \<and>
   colorSpaceIsInvertible
      \<lparr>getName = ''Non-Color'', getFamily = ''raw'', isData = True,
       getTransform_to_reference = False\<rparr> \<and>
   colorSpaceIsInvertible
      \<lparr>getName = ''Odd'', getFamily = ''Display'', isData = False,
       getTransform_to_reference = False\<rparr>"
  using
    colorSpaceIsInvertible_family
      [of "\<lparr>getName = ''Filmic'', getFamily = ''display'', isData = True,
            getTransform_to_reference = False\<rparr>"]
    colorSpaceIsInvertible_family
      [of "\<lparr>getName = ''Non-Color'', getFamily = ''raw'', isData = True,
            getTransform_to_reference = False\<rparr>"]
    colorSpaceIsInvertible_family
      [of "\<lparr>getName = ''Odd'', getFamily = ''Display'', isData = False,
            getTransform_to_reference = False\<rparr>"]
  by simp

end
